theory Spec2Isabelle
  imports Main "HOL-Library.Word"
begin

section \<open>distributable\_counter.h: a counter sharded over brokers\<close>

text \<open>
  The header declares three class templates over an integral type \<open>Integral\<close>:
  \<open>distributable_counter\<close> (an atomic \<open>counter_\<close>, an intrusive list \<open>brokers_\<close> and a
  mutex), \<open>counter_broker\<close> (an atomic \<open>value_\<close> and a reference to its counter) and
  \<open>tls_distributed_counter\<close> (a \<open>distributable_counter global_\<close>).

  \<open>Integral\<close> is a \<open>w\<close>-bit integer whose arithmetic wraps: \<open>'a word\<close>. A broker object
  is named by its address, a \<open>broker_ref\<close>. One record holds what one counter and the
  brokers bound to it store: the field \<open>counter\<close> is the member \<open>counter_\<close>, the field
  \<open>brokers\<close> is the member \<open>brokers_\<close> (the registered brokers in list order), and
  \<open>value b\<close> is the member \<open>value_\<close> of the broker object at address \<open>b\<close>. (A name of
  Isabelle cannot end with an underscore, hence the fields drop it.)

  Every function below is one call executed without interleaving, so the
  \<open>std::lock_guard\<close> regions, which only exclude other threads, leave no trace in the
  state. The destructor of a broker is the one place where the header performs two
  separately visible steps; they are two functions here.
\<close>

type_synonym broker_ref = nat

record 'i distributable_counter =
  counter :: "'i"
  brokers :: "broker_ref list"
  "value" :: "broker_ref \<Rightarrow> 'i"

subsection \<open>std::atomic\<close>

text \<open>
  The operations of \<open>std::atomic<Integral>\<close> on one cell, each as a function of the
  cell's content. Those that return something give the pair (result, new content).
\<close>

definition atomic_load :: "'a::len word \<Rightarrow> 'a word \<times> 'a word" where
  "atomic_load cell = (cell, cell)"

definition atomic_store :: "'a::len word \<Rightarrow> 'a word \<Rightarrow> 'a word" where
  "atomic_store desired cell = desired"

definition atomic_exchange :: "'a::len word \<Rightarrow> 'a word \<Rightarrow> 'a word \<times> 'a word" where
  "atomic_exchange desired cell = (cell, desired)"

definition atomic_fetch_add :: "'a::len word \<Rightarrow> 'a word \<Rightarrow> 'a word \<times> 'a word" where
  "atomic_fetch_add arg cell = (cell, cell + arg)"

definition atomic_fetch_sub :: "'a::len word \<Rightarrow> 'a word \<Rightarrow> 'a word \<times> 'a word" where
  "atomic_fetch_sub arg cell = (cell, cell - arg)"

subsection \<open>ilist\<close>

text \<open>
  Modelled from the spec: \<open>ilist.h\<close>, the intrusive list behind \<open>brokers_\<close>, is not among
  the sources. The spec gives its contract: \<open>register(node)\<close> inserts a node,
  \<open>unregister(node)\<close> removes that specific node, and iteration visits the registered
  nodes in order. A list of addresses, \<open>push_back\<close> appending at the end and \<open>remove\<close>
  deleting the node's entry.
\<close>

definition ilist_push_back :: "broker_ref \<Rightarrow> broker_ref list \<Rightarrow> broker_ref list" where
  "ilist_push_back node l = l @ [node]"

definition ilist_remove :: "broker_ref \<Rightarrow> broker_ref list \<Rightarrow> broker_ref list" where
  "ilist_remove node l = remove1 node l"

definition ilist_empty :: "broker_ref list \<Rightarrow> bool" where
  "ilist_empty l = (l = [])"

subsection \<open>assert\<close>

text \<open>
  The macro of \<open><cassert>\<close>. It expands to nothing when \<open>NDEBUG\<close> is defined, and
  otherwise aborts the program when its condition is false.
\<close>

datatype error = Assertion_failed

definition c_assert :: "bool \<Rightarrow> bool \<Rightarrow> error + unit" where
  "c_assert ndebug cond = (if ndebug then Inr () else if cond then Inr () else Inl Assertion_failed)"

subsection \<open>distributable\_counter\<close>

text \<open>
  The constructor: \<open>counter_(initial)\<close>, an empty list. \<open>mem\<close> is the memory in which
  brokers will be constructed later; the constructor does not touch it.
\<close>

definition distributable_counter_ctor ::
    "'a::len word \<Rightarrow> (broker_ref \<Rightarrow> 'a word) \<Rightarrow> 'a word distributable_counter" where
  "distributable_counter_ctor initial mem = \<lparr>counter = initial, brokers = [], value = mem\<rparr>"

text \<open>\<open>~distributable_counter() { assert(brokers_.empty()); }\<close>\<close>

definition distributable_counter_dtor :: "bool \<Rightarrow> 'a word distributable_counter \<Rightarrow> error + unit" where
  "distributable_counter_dtor ndebug s = c_assert ndebug (ilist_empty (brokers s))"

text \<open>\<open>operator+=\<close>, \<open>operator-=\<close>, \<open>operator++\<close> and \<open>operator--\<close> of the counter.\<close>

definition counter_add :: "'a::len word \<Rightarrow> 'a word distributable_counter \<Rightarrow> 'a word distributable_counter" where
  "counter_add amount s = (let (old, cell) = atomic_fetch_add amount (counter s) in s\<lparr>counter := cell\<rparr>)"

definition counter_sub :: "'a::len word \<Rightarrow> 'a word distributable_counter \<Rightarrow> 'a word distributable_counter" where
  "counter_sub amount s = (let (old, cell) = atomic_fetch_sub amount (counter s) in s\<lparr>counter := cell\<rparr>)"

definition counter_inc :: "'a::len word distributable_counter \<Rightarrow> 'a word distributable_counter" where
  "counter_inc s = counter_add 1 s"

definition counter_dec :: "'a::len word distributable_counter \<Rightarrow> 'a word distributable_counter" where
  "counter_dec s = counter_sub 1 s"

text \<open>
  \<open>load\<close>: the loop over \<open>brokers_\<close> adds an atomic load of every broker's \<open>value_\<close>
  to the accumulator; the result adds an atomic load of \<open>counter_\<close>. The memory is
  threaded through each atomic operation, and the call returns the state it leaves.
\<close>

fun load_loop ::
    "broker_ref list \<Rightarrow> 'a::len word \<Rightarrow> (broker_ref \<Rightarrow> 'a word) \<Rightarrow> 'a word \<times> (broker_ref \<Rightarrow> 'a word)" where
  "load_loop [] accumulator mem = (accumulator, mem)"
| "load_loop (broker # rest) accumulator mem =
     (let (v, cell) = atomic_load (mem broker)
      in load_loop rest (accumulator + v) (mem(broker := cell)))"

definition load :: "'a::len word distributable_counter \<Rightarrow> 'a word \<times> 'a word distributable_counter" where
  "load s =
     (let (accumulator, mem) = load_loop (brokers s) 0 (value s);
          (c, cell) = atomic_load (counter s)
      in (accumulator + c, s\<lparr>counter := cell, value := mem\<rparr>))"

text \<open>
  \<open>exchange\<close>: the loop exchanges every broker's \<open>value_\<close> with 0 and adds what was
  there to \<open>old_value\<close>; the result adds what \<open>counter_.exchange(to)\<close> returns.
\<close>

fun exchange_loop ::
    "broker_ref list \<Rightarrow> 'a::len word \<Rightarrow> (broker_ref \<Rightarrow> 'a word) \<Rightarrow> 'a word \<times> (broker_ref \<Rightarrow> 'a word)" where
  "exchange_loop [] old_value mem = (old_value, mem)"
| "exchange_loop (broker # rest) old_value mem =
     (let (v, cell) = atomic_exchange 0 (mem broker)
      in exchange_loop rest (old_value + v) (mem(broker := cell)))"

definition exchange ::
    "'a::len word \<Rightarrow> 'a word distributable_counter \<Rightarrow> 'a word \<times> 'a word distributable_counter" where
  "exchange to s =
     (let (old_value, mem) = exchange_loop (brokers s) 0 (value s);
          (c, cell) = atomic_exchange to (counter s)
      in (old_value + c, s\<lparr>counter := cell, value := mem\<rparr>))"

subsection \<open>counter\_broker\<close>

text \<open>
  The constructor of the broker at address \<open>b\<close>: the member initialiser \<open>value_{0}\<close>,
  then \<open>counter.brokers_.push_back(*this)\<close>.
\<close>

definition counter_broker_ctor ::
    "broker_ref \<Rightarrow> 'a::len word distributable_counter \<Rightarrow> 'a word distributable_counter" where
  "counter_broker_ctor b s =
     s\<lparr>brokers := ilist_push_back b (brokers s), value := (value s)(b := 0)\<rparr>"

text \<open>
  The destructor, in its two steps. The first is
  \<open>counter_+= value_.load(std::memory_order_relaxed)\<close>: an atomic load of the broker's
  value and the counter's \<open>operator+=\<close>. The second, under the lock, is
  \<open>counter_.brokers_.remove(*this)\<close>.
\<close>

definition counter_broker_dtor_flush ::
    "broker_ref \<Rightarrow> 'a::len word distributable_counter \<Rightarrow> 'a word distributable_counter" where
  "counter_broker_dtor_flush b s =
     (let (v, cell) = atomic_load (value s b)
      in counter_add v (s\<lparr>value := (value s)(b := cell)\<rparr>))"

definition counter_broker_dtor_remove ::
    "broker_ref \<Rightarrow> 'a::len word distributable_counter \<Rightarrow> 'a word distributable_counter" where
  "counter_broker_dtor_remove b s = s\<lparr>brokers := ilist_remove b (brokers s)\<rparr>"

definition counter_broker_dtor ::
    "broker_ref \<Rightarrow> 'a::len word distributable_counter \<Rightarrow> 'a word distributable_counter" where
  "counter_broker_dtor b s = counter_broker_dtor_remove b (counter_broker_dtor_flush b s)"

text \<open>
  \<open>operator+=\<close> and \<open>operator-=\<close> of the broker ("weak atomic"): an atomic load of
  \<open>value_\<close>, the sum or difference, and an atomic store of it.
\<close>

definition broker_add ::
    "broker_ref \<Rightarrow> 'a::len word \<Rightarrow> 'a word distributable_counter \<Rightarrow> 'a word distributable_counter" where
  "broker_add b amount s =
     (let (v, cell) = atomic_load (value s b);
          cell' = atomic_store (v + amount) cell
      in s\<lparr>value := (value s)(b := cell')\<rparr>)"

definition broker_sub ::
    "broker_ref \<Rightarrow> 'a::len word \<Rightarrow> 'a word distributable_counter \<Rightarrow> 'a word distributable_counter" where
  "broker_sub b amount s =
     (let (v, cell) = atomic_load (value s b);
          cell' = atomic_store (v - amount) cell
      in s\<lparr>value := (value s)(b := cell')\<rparr>)"

definition broker_inc :: "broker_ref \<Rightarrow> 'a::len word distributable_counter \<Rightarrow> 'a word distributable_counter" where
  "broker_inc b s = broker_add b 1 s"

definition broker_dec :: "broker_ref \<Rightarrow> 'a::len word distributable_counter \<Rightarrow> 'a word distributable_counter" where
  "broker_dec b s = broker_sub b 1 s"

text \<open>
  The same two updates as the single read-modify-write the header chose not to use:
  \<open>value_.fetch_add(amount)\<close> and \<open>value_.fetch_sub(amount)\<close>.
\<close>

definition broker_fetch_add ::
    "broker_ref \<Rightarrow> 'a::len word \<Rightarrow> 'a word distributable_counter \<Rightarrow> 'a word distributable_counter" where
  "broker_fetch_add b amount s =
     (let (old, cell) = atomic_fetch_add amount (value s b)
      in s\<lparr>value := (value s)(b := cell)\<rparr>)"

definition broker_fetch_sub ::
    "broker_ref \<Rightarrow> 'a::len word \<Rightarrow> 'a word distributable_counter \<Rightarrow> 'a word distributable_counter" where
  "broker_fetch_sub b amount s =
     (let (old, cell) = atomic_fetch_sub amount (value s b)
      in s\<lparr>value := (value s)(b := cell)\<rparr>)"

subsection \<open>tls\_distributed\_counter\<close>

text \<open>
  The wrapper has one data member, \<open>global_\<close>. Its \<open>load\<close> is
  \<open>{ return global_.load(); }\<close>. Its \<open>exchange\<close> is \<open>{ global_.exchange(to); }\<close>: the
  call is made and its result dropped, and control reaches the end of a function
  declared to return \<open>Integral\<close> without a \<open>return\<close> statement. The result of a call is
  therefore an option: \<open>Some v\<close> when a \<open>return\<close> statement gives \<open>v\<close>, \<open>None\<close> when the
  function returns no value.
\<close>

record 'i tls_distributed_counter =
  global :: "'i distributable_counter"

definition tls_load ::
    "'a::len word tls_distributed_counter \<Rightarrow> 'a word option \<times> 'a word tls_distributed_counter" where
  "tls_load w = (let (r, g) = load (global w) in (Some r, w\<lparr>global := g\<rparr>))"

definition tls_exchange ::
    "'a::len word \<Rightarrow> 'a word tls_distributed_counter \<Rightarrow> 'a word option \<times> 'a word tls_distributed_counter" where
  "tls_exchange to w = (let (r, g) = exchange to (global w) in (None, w\<lparr>global := g\<rparr>))"

subsection \<open>Sequences of writes\<close>

text \<open>
  A write is an \<open>operator+=\<close> or \<open>operator-=\<close> on a broker or on the counter itself;
  \<open>run_ops\<close> issues a list of them one after the other. \<open>delta\<close> is the signed amount
  of a write as an \<open>Integral\<close>, \<open>int_delta\<close> the same amount as an unbounded integer,
  and \<open>registered\<close> says that a write through a broker names a broker of
  the registry.
\<close>

datatype 'i op =
    Broker_add broker_ref 'i
  | Broker_sub broker_ref 'i
  | Counter_add 'i
  | Counter_sub 'i

fun apply_op :: "'a::len word op \<Rightarrow> 'a word distributable_counter \<Rightarrow> 'a word distributable_counter" where
  "apply_op (Broker_add b amount) s = broker_add b amount s"
| "apply_op (Broker_sub b amount) s = broker_sub b amount s"
| "apply_op (Counter_add amount) s = counter_add amount s"
| "apply_op (Counter_sub amount) s = counter_sub amount s"

fun run_ops :: "'a::len word op list \<Rightarrow> 'a word distributable_counter \<Rightarrow> 'a word distributable_counter" where
  "run_ops [] s = s"
| "run_ops (x # xs) s = run_ops xs (apply_op x s)"

fun delta :: "'a::len word op \<Rightarrow> 'a word" where
  "delta (Broker_add b amount) = amount"
| "delta (Broker_sub b amount) = - amount"
| "delta (Counter_add amount) = amount"
| "delta (Counter_sub amount) = - amount"

fun int_delta :: "'a::len word op \<Rightarrow> int" where
  "int_delta (Broker_add b amount) = uint amount"
| "int_delta (Broker_sub b amount) = - uint amount"
| "int_delta (Counter_add amount) = uint amount"
| "int_delta (Counter_sub amount) = - uint amount"

fun registered :: "broker_ref list \<Rightarrow> 'i op \<Rightarrow> bool" where
  "registered l (Broker_add b amount) = (b \<in> set l)"
| "registered l (Broker_sub b amount) = (b \<in> set l)"
| "registered l (Counter_add amount) = True"
| "registered l (Counter_sub amount) = True"

text \<open>\<open>construct_brokers bs s\<close> constructs a broker at each address of \<open>bs\<close>, in order.\<close>

fun construct_brokers ::
    "broker_ref list \<Rightarrow> 'a::len word distributable_counter \<Rightarrow> 'a word distributable_counter" where
  "construct_brokers [] s = s"
| "construct_brokers (b # bs) s = construct_brokers bs (counter_broker_ctor b s)"

section \<open>Properties\<close>

subsection \<open>Sums over the registry\<close>

lemma sum_list_map_upd_notin:
  "b \<notin> set l \<Longrightarrow> sum_list (map (f(b := v)) l) = sum_list (map f l)"
  by (induction l) auto

lemma sum_list_map_upd_in:
  fixes f :: "broker_ref \<Rightarrow> 'a::len word"
  shows "distinct l \<Longrightarrow> b \<in> set l \<Longrightarrow> sum_list (map (f(b := v)) l) = sum_list (map f l) - f b + v"
  by (induction l) (auto simp: sum_list_map_upd_notin)

lemma sum_list_map_remove1_word:
  fixes f :: "broker_ref \<Rightarrow> 'a::len word"
  shows "b \<in> set l \<Longrightarrow> sum_list (map f (remove1 b l)) = sum_list (map f l) - f b"
  by (induction l) auto

lemma sum_list_map_zero:
  "(\<And>x. x \<in> set l \<Longrightarrow> f x = 0) \<Longrightarrow> sum_list (map f l) = 0"
  by (induction l) simp_all

subsection \<open>Wrap-around of the integral type\<close>

lemma unat_word_add_mod:
  fixes x y :: "'a::len word"
  shows "unat (x + y) = (unat x + unat y) mod 2 ^ LENGTH('a)"
  by (simp add: unat_word_ariths)

lemma uint_word_sub_mod:
  fixes x y :: "'a::len word"
  shows "uint (x - y) = (uint x - uint y) mod 2 ^ LENGTH('a)"
  by (simp add: uint_word_ariths)

lemma word_of_int_delta: "word_of_int (int_delta x) = delta x"
  by (cases x) simp_all

lemma word_of_int_sum_delta: "word_of_int (sum_list (map int_delta ops)) = sum_list (map delta ops)"
  by (induction ops) (simp_all add: word_of_int_delta)

subsection \<open>What the loops compute\<close>

lemma load_loop_eq:
  "load_loop l accumulator mem = (accumulator + sum_list (map mem l), mem)"
proof (induction l arbitrary: accumulator)
  case Nil
  show ?case by simp
next
  case (Cons b l)
  have "mem(b := mem b) = mem" by simp
  then show ?case by (simp add: atomic_load_def Cons.IH add.assoc)
qed

lemma load_eq: "load s = (sum_list (map (value s) (brokers s)) + counter s, s)"
  by (simp add: load_def load_loop_eq atomic_load_def)

lemma exchange_loop_mem:
  "snd (exchange_loop l old_value mem) = (\<lambda>b. if b \<in> set l then 0 else mem b)"
proof (induction l arbitrary: old_value mem)
  case Nil
  show ?case by simp
next
  case (Cons b l)
  show ?case by (auto simp: atomic_exchange_def Cons.IH)
qed

lemma exchange_loop_sum:
  "distinct l \<Longrightarrow> fst (exchange_loop l old_value mem) = old_value + sum_list (map mem l)"
proof (induction l arbitrary: old_value mem)
  case Nil
  show ?case by simp
next
  case (Cons b l)
  then have d: "distinct l" and n: "b \<notin> set l" by simp_all
  from n have "sum_list (map (mem(b := 0)) l) = sum_list (map mem l)"
    by (rule sum_list_map_upd_notin)
  with d show ?case
    by (simp add: atomic_exchange_def Cons.IH add.assoc del: fun_upd_apply)
qed

lemma exchange_eq:
  "distinct (brokers s) \<Longrightarrow>
   exchange to s =
     (sum_list (map (value s) (brokers s)) + counter s,
      s\<lparr>counter := to, value := (\<lambda>b. if b \<in> set (brokers s) then 0 else value s b)\<rparr>)"
  using exchange_loop_sum [of "brokers s" 0 "value s"] exchange_loop_mem [of "brokers s" 0 "value s"]
  by (simp add: exchange_def atomic_exchange_def split_beta)

lemma exchange_state:
  "snd (exchange to s) =
      s\<lparr>counter := to, value := (\<lambda>b. if b \<in> set (brokers s) then 0 else value s b)\<rparr>"
  using exchange_loop_mem [of "brokers s" 0 "value s"]
  by (simp add: exchange_def atomic_exchange_def split_beta)

subsection \<open>The registry\<close>

text \<open>
  A broker enters the registry in its constructor and leaves it in its destructor, and
  no other function changes the registry. An intrusive list holds a node at most once,
  so the registry of a counter is always a list without repetition: the constructor of a
  broker at a fresh address keeps it so, and so does every other call.
\<close>

lemma brokers_apply_op: "brokers (apply_op x s) = brokers s"
  by (cases x)
    (simp_all add: broker_add_def broker_sub_def counter_add_def counter_sub_def
      atomic_load_def atomic_store_def atomic_fetch_add_def atomic_fetch_sub_def)

lemma brokers_run_ops: "brokers (run_ops ops s) = brokers s"
  by (induction ops arbitrary: s) (simp_all add: brokers_apply_op)

lemma brokers_load: "brokers (snd (load s)) = brokers s"
  by (simp add: load_eq)

lemma brokers_exchange: "brokers (snd (exchange to s)) = brokers s"
  by (simp add: exchange_state)

lemma brokers_construct_brokers: "brokers (construct_brokers bs s) = brokers s @ bs"
  by (induction bs arbitrary: s) (simp_all add: counter_broker_ctor_def ilist_push_back_def)

lemma counter_construct_brokers: "counter (construct_brokers bs s) = counter s"
  by (induction bs arbitrary: s) (simp_all add: counter_broker_ctor_def)

lemma value_construct_brokers:
  "value (construct_brokers bs s) b = (if b \<in> set bs then 0 else value s b)"
  by (induction bs arbitrary: s) (simp_all add: counter_broker_ctor_def)

lemma distinct_counter_broker_ctor:
  "distinct (brokers s) \<Longrightarrow> b \<notin> set (brokers s) \<Longrightarrow> distinct (brokers (counter_broker_ctor b s))"
  by (simp add: counter_broker_ctor_def ilist_push_back_def)

lemma counter_broker_dtor_flush_eq:
  "counter_broker_dtor_flush b s = s\<lparr>counter := counter s + value s b\<rparr>"
  by (simp add: counter_broker_dtor_flush_def counter_add_def atomic_load_def atomic_fetch_add_def)

lemma counter_broker_dtor_eq:
  "counter_broker_dtor b s =
     s\<lparr>counter := counter s + value s b, brokers := remove1 b (brokers s)\<rparr>"
  by (simp add: counter_broker_dtor_def counter_broker_dtor_remove_def counter_broker_dtor_flush_eq
      ilist_remove_def)

lemma distinct_counter_broker_dtor:
  "distinct (brokers s) \<Longrightarrow> distinct (brokers (counter_broker_dtor b s))"
  by (simp add: counter_broker_dtor_eq)

subsection \<open>Writes and what load sees\<close>

lemma load_apply_op:
  assumes "distinct (brokers s)" and "registered (brokers s) x"
  shows "fst (load (apply_op x s)) = fst (load s) + delta x"
proof (cases x)
  case (Broker_add b amount)
  with assms have "b \<in> set (brokers s)" by simp
  with assms(1) have "sum_list (map ((value s)(b := value s b + amount)) (brokers s))
      = sum_list (map (value s) (brokers s)) - value s b + (value s b + amount)"
    by (rule sum_list_map_upd_in)
  with Broker_add show ?thesis
    by (simp add: load_eq broker_add_def atomic_load_def atomic_store_def del: fun_upd_apply)
next
  case (Broker_sub b amount)
  with assms have "b \<in> set (brokers s)" by simp
  with assms(1) have "sum_list (map ((value s)(b := value s b - amount)) (brokers s))
      = sum_list (map (value s) (brokers s)) - value s b + (value s b - amount)"
    by (rule sum_list_map_upd_in)
  with Broker_sub show ?thesis
    by (simp add: load_eq broker_sub_def atomic_load_def atomic_store_def del: fun_upd_apply)
next
  case (Counter_add amount)
  then show ?thesis
    by (simp add: load_eq counter_add_def atomic_fetch_add_def)
next
  case (Counter_sub amount)
  then show ?thesis
    by (simp add: load_eq counter_sub_def atomic_fetch_sub_def)
qed

lemma load_run_ops:
  "distinct (brokers s) \<Longrightarrow> \<forall>x \<in> set ops. registered (brokers s) x \<Longrightarrow>
   fst (load (run_ops ops s)) = fst (load s) + sum_list (map delta ops)"
proof (induction ops arbitrary: s)
  case Nil
  show ?case by simp
next
  case (Cons x ops)
  have b: "brokers (apply_op x s) = brokers s" by (rule brokers_apply_op)
  from Cons.prems have "fst (load (apply_op x s)) = fst (load s) + delta x"
    by (intro load_apply_op) simp_all
  moreover from Cons.prems b
  have "fst (load (run_ops ops (apply_op x s))) = fst (load (apply_op x s)) + sum_list (map delta ops)"
    by (intro Cons.IH) simp_all
  ultimately show ?case by (simp add: add.assoc)
qed

lemma load_construct_brokers:
  "fst (load (construct_brokers bs (distributable_counter_ctor initial mem))) = initial"
proof -
  let ?s = "construct_brokers bs (distributable_counter_ctor initial mem)"
  have "brokers ?s = bs"
    by (simp add: brokers_construct_brokers distributable_counter_ctor_def)
  moreover have "sum_list (map (value ?s) bs) = 0"
    by (rule sum_list_map_zero) (simp add: value_construct_brokers)
  moreover have "counter ?s = initial"
    by (simp add: counter_construct_brokers distributable_counter_ctor_def)
  ultimately show ?thesis by (simp add: load_eq)
qed

section \<open>The claims\<close>

text \<open>
  Claim C1. Construct a counter with value \<open>initial\<close> and brokers at the pairwise
  different addresses \<open>bs\<close>, then issue any list of writes, each through one of these
  brokers or on the counter itself, with no \<open>exchange\<close> and no destruction of a broker in
  between. The \<open>load\<close> that follows returns \<open>initial\<close> plus the sum of the signed amounts
  of all writes, computed in the integral type; read as an unsigned number it is the
  integer sum reduced modulo \<open>2 ^ w\<close>.
\<close>

theorem shard_transparency:
  fixes initial :: "'a::len word"
  assumes "distinct bs" and "\<forall>x \<in> set ops. registered bs x"
  shows "fst (load (run_ops ops (construct_brokers bs (distributable_counter_ctor initial mem))))
           = initial + sum_list (map delta ops)
       \<and> uint (fst (load (run_ops ops (construct_brokers bs (distributable_counter_ctor initial mem)))))
           = (uint initial + sum_list (map int_delta ops)) mod 2 ^ LENGTH('a)"
proof -
  let ?s = "construct_brokers bs (distributable_counter_ctor initial mem)"
  have b: "brokers ?s = bs"
    by (simp add: brokers_construct_brokers distributable_counter_ctor_def)
  with assms have "fst (load (run_ops ops ?s)) = fst (load ?s) + sum_list (map delta ops)"
    by (intro load_run_ops) simp_all
  then have 1: "fst (load (run_ops ops ?s)) = initial + sum_list (map delta ops)"
    by (simp only: load_construct_brokers)
  have "initial + sum_list (map delta ops) = word_of_int (uint initial + sum_list (map int_delta ops))"
    by (simp add: word_of_int_sum_delta)
  then have "uint (initial + sum_list (map delta ops)) = (uint initial + sum_list (map int_delta ops)) mod 2 ^ LENGTH('a)"
    by (simp only: uint_word_of_int)
  with 1 show ?thesis by simp
qed

theorem shard_transparency_witness:
  "distinct [0, 1 :: broker_ref]
   \<and> list_all (registered [0, 1]) [Broker_add 0 5, Broker_add 1 10, Counter_add 3, Broker_sub 0 (2 :: 32 word)]
   \<and> fst (load (run_ops [Broker_add 0 5, Broker_add 1 10, Counter_add 3, Broker_sub 0 (2 :: 32 word)]
        (construct_brokers [0, 1] (distributable_counter_ctor 0 (\<lambda>_. 7))))) = 16"
proof -
  have d: "distinct [0, 1 :: broker_ref]" by simp
  have r: "\<forall>x \<in> set [Broker_add 0 5, Broker_add 1 10, Counter_add 3, Broker_sub 0 (2 :: 32 word)]. registered [0, 1] x"
    by simp
  from shard_transparency [OF d r, of 0 "\<lambda>_. 7"] d show ?thesis by simp
qed

text \<open>
  Claim C2. On a counter whose registry holds each broker once, \<open>exchange to\<close> returns
  the sum of the values of all registered brokers plus the old \<open>counter_\<close>, which is what
  \<open>load\<close> returns at that moment; afterwards every registered broker's value is 0,
  \<open>counter_\<close> is \<open>to\<close>, the registry is unchanged, and a \<open>load\<close> that follows at once
  returns exactly \<open>to\<close>.
\<close>

theorem exchange_resets:
  assumes "distinct (brokers s)"
  shows "fst (exchange to s) = sum_list (map (value s) (brokers s)) + counter s
       \<and> fst (exchange to s) = fst (load s)
       \<and> (\<forall>b \<in> set (brokers s). value (snd (exchange to s)) b = 0)
       \<and> counter (snd (exchange to s)) = to
       \<and> brokers (snd (exchange to s)) = brokers s
       \<and> fst (load (snd (exchange to s))) = to"
proof -
  have z: "sum_list (map (\<lambda>b. if b \<in> set (brokers s) then 0 else value s b) (brokers s)) = 0"
    by (rule sum_list_map_zero) simp
  show ?thesis
    using assms z by (simp add: exchange_eq load_eq)
qed

theorem exchange_resets_witness:
  "distinct (brokers \<lparr>counter = 3 :: 32 word, brokers = [0, 1], value = (\<lambda>_. 0)(0 := 5, 1 := 10)\<rparr>)
   \<and> fst (exchange 100 \<lparr>counter = 3 :: 32 word, brokers = [0, 1], value = (\<lambda>_. 0)(0 := 5, 1 := 10)\<rparr>) = 18
   \<and> fst (load (snd (exchange 100 \<lparr>counter = 3 :: 32 word, brokers = [0, 1], value = (\<lambda>_. 0)(0 := 5, 1 := 10)\<rparr>))) = 100"
proof -
  let ?s = "\<lparr>counter = 3 :: 32 word, brokers = [0, 1], value = (\<lambda>_. 0)(0 := 5, 1 := 10)\<rparr>"
  have d: "distinct (brokers ?s)" by simp
  from exchange_resets [OF d, of 100] d show ?thesis by simp
qed

text \<open>
  Claim C3. The wrapper's \<open>exchange\<close> calls the internal counter's \<open>exchange\<close>, which
  resets the counter, but has no \<open>return\<close> statement: on the counter of the spec's
  example (brokers holding 5 and 10, \<open>counter_\<close> 3) the internal \<open>exchange(100)\<close> returns
  18, and the wrapper's \<open>exchange(100)\<close> returns no value, whereas the wrapper's \<open>load\<close>
  does return the internal result.
\<close>

theorem tls_exchange_returns_no_value:
  "fst (exchange 100 (global \<lparr>global = \<lparr>counter = 3 :: 32 word, brokers = [0, 1], value = (\<lambda>_. 0)(0 := 5, 1 := 10)\<rparr>\<rparr>)) = 18
   \<and> fst (tls_exchange 100 \<lparr>global = \<lparr>counter = 3 :: 32 word, brokers = [0, 1], value = (\<lambda>_. 0)(0 := 5, 1 := 10)\<rparr>\<rparr>) = None
   \<and> fst (tls_load \<lparr>global = \<lparr>counter = 3 :: 32 word, brokers = [0, 1], value = (\<lambda>_. 0)(0 := 5, 1 := 10)\<rparr>\<rparr>) = Some 18"
  by (simp add: tls_exchange_def tls_load_def exchange_def load_def atomic_exchange_def atomic_load_def split_beta)

text \<open>
  Claim C4. The destructor of a registered broker \<open>b\<close> is its flush followed by its
  removal. After the flush alone \<open>counter_\<close> has grown by the broker's value, the broker
  still holds that value and is still registered. A \<open>load\<close> executed at that point
  returns the value it would have returned before the destructor began plus the broker's
  value once more, that is the other brokers' values and the old \<open>counter_\<close> plus twice the
  value of \<open>b\<close>; an \<open>exchange\<close> executed at that point returns the same doubly counted
  total. Once the removal is done \<open>load\<close> returns the right total again.
\<close>

theorem dtor_window_counts_twice:
  fixes s :: "'a::len word distributable_counter"
  assumes "distinct (brokers s)" and "b \<in> set (brokers s)"
  shows "counter_broker_dtor_remove b (counter_broker_dtor_flush b s) = counter_broker_dtor b s
       \<and> counter (counter_broker_dtor_flush b s) = counter s + value s b
       \<and> value (counter_broker_dtor_flush b s) b = value s b
       \<and> b \<in> set (brokers (counter_broker_dtor_flush b s))
       \<and> fst (load (counter_broker_dtor_flush b s)) = fst (load s) + value s b
       \<and> fst (load (counter_broker_dtor_flush b s)) =
           sum_list (map (value s) (remove1 b (brokers s))) + counter s + 2 * value s b
       \<and> fst (exchange to (counter_broker_dtor_flush b s)) = fst (exchange to s) + value s b
       \<and> fst (exchange to (counter_broker_dtor_flush b s)) =
           sum_list (map (value s) (remove1 b (brokers s))) + counter s + 2 * value s b
       \<and> fst (load (counter_broker_dtor b s)) = fst (load s)"
proof -
  have r: "sum_list (map (value s) (remove1 b (brokers s))) = sum_list (map (value s) (brokers s)) - value s b"
    using assms(2) by (rule sum_list_map_remove1_word)
  have 1: "counter_broker_dtor_remove b (counter_broker_dtor_flush b s) = counter_broker_dtor b s"
    by (simp add: counter_broker_dtor_def)
  have 2: "counter (counter_broker_dtor_flush b s) = counter s + value s b"
    and 3: "value (counter_broker_dtor_flush b s) b = value s b"
    by (simp_all add: counter_broker_dtor_flush_eq)
  have 4: "b \<in> set (brokers (counter_broker_dtor_flush b s))"
    using assms(2) by (simp add: counter_broker_dtor_flush_eq)
  have 5: "fst (load (counter_broker_dtor_flush b s)) = fst (load s) + value s b"
    by (simp add: load_eq counter_broker_dtor_flush_eq)
  have 6: "fst (load (counter_broker_dtor_flush b s)) =
           sum_list (map (value s) (remove1 b (brokers s))) + counter s + 2 * value s b"
    by (simp add: load_eq counter_broker_dtor_flush_eq r)
  have 7: "fst (exchange to (counter_broker_dtor_flush b s)) = fst (exchange to s) + value s b"
    using assms(1) by (simp add: exchange_eq counter_broker_dtor_flush_eq)
  have 8: "fst (exchange to (counter_broker_dtor_flush b s)) =
           sum_list (map (value s) (remove1 b (brokers s))) + counter s + 2 * value s b"
    using assms(1) by (simp add: exchange_eq counter_broker_dtor_flush_eq r)
  have 9: "fst (load (counter_broker_dtor b s)) = fst (load s)"
    by (simp add: load_eq counter_broker_dtor_eq r)
  from 1 2 3 4 5 6 7 8 9 show ?thesis by blast
qed

theorem dtor_window_counts_twice_witness:
  "distinct (brokers \<lparr>counter = 3 :: 32 word, brokers = [0, 1], value = (\<lambda>_. 0)(0 := 5, 1 := 10)\<rparr>)
   \<and> (0 :: broker_ref) \<in> set (brokers \<lparr>counter = 3 :: 32 word, brokers = [0, 1], value = (\<lambda>_. 0)(0 := 5, 1 := 10)\<rparr>)
   \<and> fst (load \<lparr>counter = 3 :: 32 word, brokers = [0, 1], value = (\<lambda>_. 0)(0 := 5, 1 := 10)\<rparr>) = 18
   \<and> fst (load (counter_broker_dtor_flush 0
        \<lparr>counter = 3 :: 32 word, brokers = [0, 1], value = (\<lambda>_. 0)(0 := 5, 1 := 10)\<rparr>)) = 23
   \<and> fst (exchange 100 \<lparr>counter = 3 :: 32 word, brokers = [0, 1], value = (\<lambda>_. 0)(0 := 5, 1 := 10)\<rparr>) = 18
   \<and> fst (exchange 100 (counter_broker_dtor_flush 0
        \<lparr>counter = 3 :: 32 word, brokers = [0, 1], value = (\<lambda>_. 0)(0 := 5, 1 := 10)\<rparr>)) = 23
   \<and> fst (load (counter_broker_dtor 0
        \<lparr>counter = 3 :: 32 word, brokers = [0, 1], value = (\<lambda>_. 0)(0 := 5, 1 := 10)\<rparr>)) = 18"
proof -
  let ?s = "\<lparr>counter = 3 :: 32 word, brokers = [0, 1], value = (\<lambda>_. 0)(0 := 5, 1 := 10)\<rparr>"
  have d: "distinct (brokers ?s)" by simp
  have m: "(0 :: broker_ref) \<in> set (brokers ?s)" by simp
  have l: "fst (load ?s) = 18" by (simp add: load_eq)
  have e: "fst (exchange 100 ?s) = 18" by (simp add: exchange_eq)
  from dtor_window_counts_twice [where to = 100, OF d m] d m l e show ?thesis by simp
qed

text \<open>
  Claim C5. \<open>load\<close> leaves the whole state as it found it, every broker's value and
  \<open>counter_\<close> included, so a second \<open>load\<close> right after it returns the same value;
  \<open>exchange\<close> is the call that sets the value of every registered broker to 0 (and
  leaves every other broker's value alone).
\<close>

theorem load_observes_only:
  "snd (load s) = s
   \<and> fst (load (snd (load s))) = fst (load s)
   \<and> value (snd (exchange to s)) = (\<lambda>b. if b \<in> set (brokers s) then 0 else value s b)"
  by (simp add: load_eq exchange_state)

text \<open>
  Claim C6, as the code has it. The destructor of the counter is the single statement
  \<open>assert(brokers_.empty())\<close>. Where \<open>assert\<close> is active (\<open>NDEBUG\<close> not defined) the
  destructor fails with the assertion exactly when a broker is still registered and
  succeeds exactly when the registry is empty. Where \<open>NDEBUG\<close> is defined the macro expands
  to nothing and the destructor succeeds whatever the registry holds.
\<close>

theorem distributable_counter_dtor_checks:
  "distributable_counter_dtor ndebug s =
     (if \<not> ndebug \<and> brokers s \<noteq> [] then Inl Assertion_failed else Inr ())"
  by (simp add: distributable_counter_dtor_def c_assert_def ilist_empty_def)

text \<open>
  Claim C6 as it is stated fails in a build with \<open>NDEBUG\<close>: the destructor of a counter
  with one registered broker succeeds there.
\<close>

theorem distributable_counter_dtor_ndebug_counterexample:
  "brokers \<lparr>counter = 0 :: 32 word, brokers = [0], value = (\<lambda>_. 0)\<rparr> \<noteq> []
   \<and> distributable_counter_dtor True \<lparr>counter = 0 :: 32 word, brokers = [0], value = (\<lambda>_. 0)\<rparr> = Inr ()"
  by (simp add: distributable_counter_dtor_def c_assert_def ilist_empty_def)

text \<open>
  Claim C7. A broker's \<open>operator+=\<close> (an atomic load, then an atomic store of the sum)
  leaves the same state as a single \<open>fetch_add\<close> on the broker's value would, and its
  \<open>operator-=\<close> the same state as a single \<open>fetch_sub\<close>: the new value is the old one
  plus or minus the amount, modulo \<open>2 ^ w\<close>.
\<close>

theorem broker_add_is_fetch_add:
  fixes amount :: "'a::len word"
  shows "broker_add b amount s = broker_fetch_add b amount s
       \<and> broker_sub b amount s = broker_fetch_sub b amount s
       \<and> value (broker_add b amount s) b = value s b + amount
       \<and> value (broker_sub b amount s) b = value s b - amount
       \<and> unat (value (broker_add b amount s) b) = (unat (value s b) + unat amount) mod 2 ^ LENGTH('a)
       \<and> uint (value (broker_sub b amount s) b) = (uint (value s b) - uint amount) mod 2 ^ LENGTH('a)"
  by (simp add: broker_add_def broker_sub_def broker_fetch_add_def broker_fetch_sub_def
      atomic_load_def atomic_store_def atomic_fetch_add_def atomic_fetch_sub_def
      unat_word_add_mod uint_word_sub_mod)

text \<open>
  Claim C8. For two different brokers \<open>b1\<close> and \<open>b2\<close>, an \<open>operator+=\<close> or
  \<open>operator-=\<close> on \<open>b1\<close>, the flush of \<open>b1\<close> and the whole destructor of \<open>b1\<close> leave the
  value of \<open>b2\<close> unchanged, and the destructor of \<open>b1\<close> leaves \<open>b2\<close> registered exactly if it
  was.
\<close>

theorem brokers_independent:
  assumes "b1 \<noteq> b2"
  shows "value (broker_add b1 amount s) b2 = value s b2
       \<and> value (broker_sub b1 amount s) b2 = value s b2
       \<and> value (counter_broker_dtor_flush b1 s) b2 = value s b2
       \<and> value (counter_broker_dtor b1 s) b2 = value s b2
       \<and> (b2 \<in> set (brokers (counter_broker_dtor b1 s))) = (b2 \<in> set (brokers s))"
  using assms
  by (simp add: broker_add_def broker_sub_def counter_broker_dtor_def counter_broker_dtor_flush_def
      counter_broker_dtor_remove_def counter_add_def atomic_load_def atomic_store_def
      atomic_fetch_add_def ilist_remove_def)

theorem brokers_independent_witness:
  "(0 :: broker_ref) \<noteq> 1
   \<and> value (broker_add 0 (7 :: 32 word) \<lparr>counter = 3, brokers = [0, 1], value = (\<lambda>_. 0)(0 := 5, 1 := 10)\<rparr>) 1 = 10
   \<and> value (counter_broker_dtor 0 \<lparr>counter = 3 :: 32 word, brokers = [0, 1], value = (\<lambda>_. 0)(0 := 5, 1 := 10)\<rparr>) 1 = 10"
proof -
  have n: "(0 :: broker_ref) \<noteq> 1" by simp
  from brokers_independent [OF n, of 7 "\<lparr>counter = 3 :: 32 word, brokers = [0, 1], value = (\<lambda>_. 0)(0 := 5, 1 := 10)\<rparr>"] n
  show ?thesis by simp
qed

text \<open>
  Claim C9. The counter's own \<open>operator+=\<close> and \<open>operator-=\<close> are total functions of the
  state with no error result: for every \<open>counter_\<close> and every amount they change
  \<open>counter_\<close> alone, to the old value plus or minus the amount modulo \<open>2 ^ w\<close>.
\<close>

theorem counter_add_sub_wraps:
  fixes amount :: "'a::len word"
  shows "counter (counter_add amount s) = counter s + amount
       \<and> unat (counter (counter_add amount s)) = (unat (counter s) + unat amount) mod 2 ^ LENGTH('a)
       \<and> counter (counter_sub amount s) = counter s - amount
       \<and> uint (counter (counter_sub amount s)) = (uint (counter s) - uint amount) mod 2 ^ LENGTH('a)
       \<and> counter_add amount s = s\<lparr>counter := counter s + amount\<rparr>
       \<and> counter_sub amount s = s\<lparr>counter := counter s - amount\<rparr>"
  by (simp add: counter_add_def counter_sub_def atomic_fetch_add_def atomic_fetch_sub_def
      unat_word_add_mod uint_word_sub_mod)

text \<open>
  Claim C10. A broker constructed at an address that is not registered has value 0 and
  does not change what \<open>load\<close> returns. Destroying it before any write goes through it
  gives back the \<open>load\<close> result, the registry and the \<open>counter_\<close> from before its
  construction.
\<close>

theorem ctor_dtor_identity:
  fixes s :: "'a::len word distributable_counter"
  assumes "b \<notin> set (brokers s)"
  shows "value (counter_broker_ctor b s) b = 0
       \<and> fst (load (counter_broker_ctor b s)) = fst (load s)
       \<and> fst (load (counter_broker_dtor b (counter_broker_ctor b s))) = fst (load s)
       \<and> brokers (counter_broker_dtor b (counter_broker_ctor b s)) = brokers s
       \<and> counter (counter_broker_dtor b (counter_broker_ctor b s)) = counter s"
proof -
  from assms have u: "sum_list (map ((value s)(b := 0)) (brokers s)) = sum_list (map (value s) (brokers s))"
    by (rule sum_list_map_upd_notin)
  from assms have r: "remove1 b (brokers s @ [b]) = brokers s"
    by (simp add: remove1_append)
  have 1: "value (counter_broker_ctor b s) b = 0"
    by (simp add: counter_broker_ctor_def)
  have 2: "fst (load (counter_broker_ctor b s)) = fst (load s)"
    using u by (simp add: load_eq counter_broker_ctor_def ilist_push_back_def fun_upd_same
        del: fun_upd_apply)
  have 3: "fst (load (counter_broker_dtor b (counter_broker_ctor b s))) = fst (load s)"
    using u r by (simp add: load_eq counter_broker_dtor_eq counter_broker_ctor_def ilist_push_back_def
        fun_upd_same del: fun_upd_apply)
  have 4: "brokers (counter_broker_dtor b (counter_broker_ctor b s)) = brokers s"
    using r by (simp add: counter_broker_dtor_eq counter_broker_ctor_def ilist_push_back_def)
  have 5: "counter (counter_broker_dtor b (counter_broker_ctor b s)) = counter s"
    by (simp add: counter_broker_dtor_eq counter_broker_ctor_def)
  from 1 2 3 4 5 show ?thesis by blast
qed

theorem ctor_dtor_identity_witness:
  "(2 :: broker_ref) \<notin> set (brokers \<lparr>counter = 3 :: 32 word, brokers = [0, 1], value = (\<lambda>_. 9)(0 := 5, 1 := 10)\<rparr>)
   \<and> fst (load \<lparr>counter = 3 :: 32 word, brokers = [0, 1], value = (\<lambda>_. 9)(0 := 5, 1 := 10)\<rparr>) = 18
   \<and> fst (load (counter_broker_dtor 2 (counter_broker_ctor 2
        \<lparr>counter = 3 :: 32 word, brokers = [0, 1], value = (\<lambda>_. 9)(0 := 5, 1 := 10)\<rparr>))) = 18
   \<and> brokers (counter_broker_dtor 2 (counter_broker_ctor 2
        \<lparr>counter = 3 :: 32 word, brokers = [0, 1], value = (\<lambda>_. 9)(0 := 5, 1 := 10)\<rparr>)) = [0, 1]"
proof -
  let ?s = "\<lparr>counter = 3 :: 32 word, brokers = [0, 1], value = (\<lambda>_. 9)(0 := 5, 1 := 10)\<rparr>"
  have n: "(2 :: broker_ref) \<notin> set (brokers ?s)" by simp
  have l: "fst (load ?s) = 18" by (simp add: load_eq)
  from ctor_dtor_identity [OF n] n l show ?thesis by simp
qed

end
